theory Spec2Isabelle
  imports Main "HOL-Library.Word"
begin

unbundle bit_operations_syntax

section \<open>The ivshmem character device (kvm\_ivshmem.c)\<close>

text \<open>
  The driver keeps its state in file-scope variables: the device structure
  \<^verbatim>\<open>kvm_ivshmem_dev\<close>, the semaphore \<^verbatim>\<open>sema\<close>, the flag \<^verbatim>\<open>event_num\<close> and the wait
  queue \<^verbatim>\<open>wait_queue\<close>.  The record below holds the fields the file operations and the
  interrupt handler read or write, together with the two device registers they touch.

  \<^item> \<open>base_addr\<close> is the pointer returned by \<^verbatim>\<open>pci_iomap\<close> for the data window; the
    null pointer is \<open>0\<close>.
  \<^item> \<open>ioaddr_size\<close> is the \<^verbatim>\<open>unsigned int\<close> length of the data window.
  \<^item> \<open>IVPosition\<close> is the content of the peer identity register.
  \<^item> \<open>Doorbell\<close> lists the values handed to \<^verbatim>\<open>writel\<close> for the doorbell register, the
    oldest first.
  \<^item> \<open>sema\<close> is the count of the kernel semaphore \<^verbatim>\<open>sema\<close>, an \<^verbatim>\<open>unsigned int\<close>;
    \<open>sema_sleepers\<close> is the number of tasks on its wait list, asleep in
    \<^verbatim>\<open>down_interruptible\<close>; \<open>sema_woken\<close> is the number of tasks that \<^verbatim>\<open>up\<close> has woken
    and that have not run again yet.
  \<^item> \<open>event_num\<close> is the \<^verbatim>\<open>static int\<close> flag tested by \<^verbatim>\<open>wait_event_interruptible\<close>.
  \<^item> \<open>wq_sleepers\<close> is the number of tasks on \<^verbatim>\<open>wait_queue\<close>, asleep in
    \<^verbatim>\<open>wait_event_interruptible\<close>; \<open>wq_woken\<close> is the number of tasks that
    \<^verbatim>\<open>wake_up_interruptible\<close> has woken and that have not run again yet.
\<close>

record ivshmem =
  base_addr :: "64 word"
  ioaddr_size :: "32 word"
  IVPosition :: "32 word"
  Doorbell :: "32 word list"
  sema :: "32 word"
  sema_sleepers :: nat
  sema_woken :: nat
  event_num :: int
  wq_sleepers :: nat
  wq_woken :: nat

subsection \<open>Constants\<close>

text \<open>\<^verbatim>\<open>enum ivshmem_ioctl\<close>, in declaration order from 0.\<close>

definition set_sema :: "32 word" where "set_sema = 0"
definition down_sema :: "32 word" where "down_sema = 1"
definition empty_cmd :: "32 word" where "empty_cmd = 2"
definition wait_event :: "32 word" where "wait_event = 3"
definition wait_event_irq :: "32 word" where "wait_event_irq = 4"
definition read_ivposn :: "32 word" where "read_ivposn = 5"
definition read_livelist :: "32 word" where "read_livelist = 6"
definition sema_irq :: "32 word" where "sema_irq = 7"

definition SEEK_SET :: "32 word" where "SEEK_SET = 0"
definition SEEK_CUR :: "32 word" where "SEEK_CUR = 1"
definition SEEK_END :: "32 word" where "SEEK_END = 2"

definition EINTR :: int where "EINTR = 4"
definition EFAULT :: int where "EFAULT = 14"
definition ERESTARTSYS :: int where "ERESTARTSYS = 512"

subsection \<open>Kernel primitives used by the driver\<close>

text \<open>
  The semaphore and the wait queue belong to the kernel, not to this driver.  They are
  taken by the contract of their interface, with the count as the 32-bit counter it is.

  A call that puts the caller to sleep does not return: its outcome is \<open>Sleeps\<close>,
  with the state in which the caller is counted among the sleepers.  The sleeping
  primitives test their condition again each time the sleeper is woken, so a woken
  call is continued by taking the caller off the woken tasks and evaluating the same
  call in the state found then.
\<close>

datatype 'a blocking = Returns 'a | Sleeps ivshmem

text \<open>
  \<^verbatim>\<open>sema_init(&sema, val)\<close> takes an \<^verbatim>\<open>int\<close> and stores it in the \<^verbatim>\<open>unsigned int\<close>
  count: of the \<^verbatim>\<open>unsigned long\<close> argument the low 32 bits remain.  It also sets the
  wait list to the empty list.
\<close>

definition sema_init :: "64 word \<Rightarrow> ivshmem \<Rightarrow> ivshmem" where
  "sema_init val s = s\<lparr>sema := ucast val, sema_sleepers := 0\<rparr>"

text \<open>
  \<^verbatim>\<open>up\<close>: adds one to the count, which wraps at \<open>2^32\<close>, and wakes the first task of
  the wait list, if there is one.
\<close>

definition up :: "ivshmem \<Rightarrow> ivshmem" where
  "up s =
     (if sema_sleepers s = 0 then s\<lparr>sema := sema s + 1\<rparr>
      else s\<lparr>sema := sema s + 1,
             sema_sleepers := sema_sleepers s - 1,
             sema_woken := sema_woken s + 1\<rparr>)"

text \<open>
  \<^verbatim>\<open>down_interruptible\<close>: takes the semaphore when the count is positive; otherwise the
  caller sleeps on the wait list, and a signal (\<open>sig\<close>) ends the sleep with \<^verbatim>\<open>-EINTR\<close>,
  the caller off the list again and no decrement.
\<close>

definition down_interruptible :: "bool \<Rightarrow> ivshmem \<Rightarrow> (int \<times> ivshmem) blocking" where
  "down_interruptible sig s =
     (if 0 < sema s then Returns (0, s\<lparr>sema := sema s - 1\<rparr>)
      else if sig then Returns (- EINTR, s)
      else Sleeps (s\<lparr>sema_sleepers := sema_sleepers s + 1\<rparr>))"

text \<open>
  \<^verbatim>\<open>wait_event_interruptible(wait_queue, condition)\<close>: returns 0 at once when the
  condition holds; otherwise the caller sleeps on the queue, and a signal ends the
  sleep with \<^verbatim>\<open>-ERESTARTSYS\<close>, the caller off the queue again.
\<close>

definition wait_event_interruptible :: "bool \<Rightarrow> bool \<Rightarrow> ivshmem \<Rightarrow> int blocking" where
  "wait_event_interruptible sig condition s =
     (if condition then Returns 0
      else if sig then Returns (- ERESTARTSYS)
      else Sleeps (s\<lparr>wq_sleepers := wq_sleepers s + 1\<rparr>))"

text \<open>
  \<^verbatim>\<open>wake_up_interruptible(&wait_queue)\<close> wakes every task asleep on the queue and
  takes it off the queue.
\<close>

definition wake_up_interruptible :: "ivshmem \<Rightarrow> ivshmem" where
  "wake_up_interruptible s =
     s\<lparr>wq_sleepers := 0, wq_woken := wq_woken s + wq_sleepers s\<rparr>"

definition writel_Doorbell :: "32 word \<Rightarrow> ivshmem \<Rightarrow> ivshmem" where
  "writel_Doorbell msg s = s\<lparr>Doorbell := Doorbell s @ [msg]\<rparr>"

subsection \<open>\<^verbatim>\<open>kvm_ivshmem_ioctl\<close>\<close>

text \<open>
  The doorbell message of the three ring commands,
  \<^verbatim>\<open>msg = ((arg & 0xff) << 8) + (cmd & 0xff)\<close>: \<open>arg\<close> is \<^verbatim>\<open>unsigned long\<close>, \<open>cmd\<close> is
  \<^verbatim>\<open>unsigned int\<close> and is widened for the sum, and the sum is cut to the \<^verbatim>\<open>uint32_t\<close>
  \<open>msg\<close>.
\<close>

definition doorbell_msg :: "32 word \<Rightarrow> 64 word \<Rightarrow> 32 word" where
  "doorbell_msg cmd arg =
     ucast (push_bit 8 (arg AND 0xff) + (ucast (cmd AND 0xff) :: 64 word))"

text \<open>
  The result is the value returned to the caller, the word handed to
  \<^verbatim>\<open>copy_to_user\<close> (only \<^verbatim>\<open>read_ivposn\<close> has one) and the new state.  \<open>sig\<close> tells whether
  a signal reaches the caller while it sleeps.  The values \<^verbatim>\<open>rv\<close> receives are not used:
  every path that returns ends in \<^verbatim>\<open>return 0\<close>.
\<close>

definition kvm_ivshmem_ioctl ::
  "32 word \<Rightarrow> 64 word \<Rightarrow> bool \<Rightarrow> ivshmem \<Rightarrow> (int \<times> 32 word option \<times> ivshmem) blocking" where
  "kvm_ivshmem_ioctl cmd arg sig s =
     (if cmd = set_sema then Returns (0, None, sema_init arg s)
      else if cmd = down_sema then
        (case down_interruptible sig s of
           Sleeps s' \<Rightarrow> Sleeps s'
         | Returns (rv, s') \<Rightarrow> Returns (0, None, s'))
      else if cmd = empty_cmd then
        Returns (0, None, writel_Doorbell (doorbell_msg cmd arg) s)
      else if cmd = wait_event then
        (case wait_event_interruptible sig (event_num s = 1) s of
           Sleeps s' \<Rightarrow> Sleeps s'
         | Returns rv \<Rightarrow> Returns (0, None, s\<lparr>event_num := 0\<rparr>))
      else if cmd = wait_event_irq then
        Returns (0, None, writel_Doorbell (doorbell_msg cmd arg) s)
      else if cmd = read_ivposn then Returns (0, Some (IVPosition s), s)
      else if cmd = sema_irq then
        Returns (0, None, writel_Doorbell (doorbell_msg cmd arg) s)
      else Returns (0, None, s))"

subsection \<open>\<^verbatim>\<open>kvm_ivshmem_interrupt\<close>\<close>

datatype irqreturn = IRQ_NONE | IRQ_HANDLED

text \<open>
  \<open>dev\<close> tells whether \<^verbatim>\<open>dev_instance\<close> is a device (not \<^verbatim>\<open>NULL\<close>); \<open>status\<close> is the
  value \<^verbatim>\<open>readl\<close> returns for the interrupt status register.
\<close>

definition kvm_ivshmem_interrupt :: "bool \<Rightarrow> 32 word \<Rightarrow> ivshmem \<Rightarrow> irqreturn \<times> ivshmem" where
  "kvm_ivshmem_interrupt dev status s =
     (if \<not> dev then (IRQ_NONE, s)
      else if status = 0 \<or> status = 0xFFFFFFFF then (IRQ_NONE, s)
      else if status = sema_irq then (IRQ_HANDLED, up s)
      else if status = wait_event_irq then
        (IRQ_HANDLED, wake_up_interruptible (s\<lparr>event_num := 1\<rparr>))
      else (IRQ_HANDLED, s))"

subsection \<open>\<^verbatim>\<open>kvm_ivshmem_lseek\<close>\<close>

text \<open>
  \<open>f_pos\<close> and \<open>offset\<close> are \<^verbatim>\<open>loff_t\<close> (64 bits, signed), \<open>origin\<close> is an \<^verbatim>\<open>int\<close>.  The
  comparison with the \<^verbatim>\<open>unsigned int\<close> window size is made in \<^verbatim>\<open>long long\<close>.  The result
  is the value returned and the new \<^verbatim>\<open>filp->f_pos\<close>.
\<close>

definition kvm_ivshmem_lseek :: "ivshmem \<Rightarrow> 64 word \<Rightarrow> 64 word \<Rightarrow> 32 word \<Rightarrow> 64 word \<times> 64 word" where
  "kvm_ivshmem_lseek s f_pos offset origin =
     (let offset1 = (if origin = SEEK_CUR then offset + f_pos else offset)
      in if origin = SEEK_CUR \<or> origin = SEEK_SET then
           (offset1,
            if uint (ioaddr_size s) < sint offset1 then ucast (ioaddr_size s) else offset1)
         else (- 1, f_pos))"

subsection \<open>\<^verbatim>\<open>kvm_ivshmem_read\<close> and \<^verbatim>\<open>kvm_ivshmem_write\<close>\<close>

text \<open>
  \<open>len\<close> is a \<^verbatim>\<open>size_t\<close>, \<open>poffset\<close> the \<^verbatim>\<open>loff_t\<close> the caller points to, read into the
  \<^verbatim>\<open>unsigned long offset\<close>.  In \<^verbatim>\<open>ioaddr_size - offset\<close> the window size is widened to
  \<^verbatim>\<open>unsigned long\<close> and the difference wraps.  \<open>uncopied\<close> is what \<^verbatim>\<open>copy_to_user\<close>
  (\<^verbatim>\<open>copy_from_user\<close>) returns, the number of bytes it could not copy, stored in an
  \<^verbatim>\<open>int\<close>.

  The result is the \<^verbatim>\<open>ssize_t\<close> returned, the copy that was started (the address in
  the window and the number of bytes) if any, and the new \<^verbatim>\<open>*poffset\<close>.
\<close>

type_synonym rw_result = "int \<times> (64 word \<times> 64 word) option \<times> 64 word"

text \<open>
  Both functions shorten the request with the same two lines,
  \<^verbatim>\<open>if (len > kvm_ivshmem_dev.ioaddr_size - offset) len = kvm_ivshmem_dev.ioaddr_size - offset;\<close>
\<close>

definition clamp_len :: "ivshmem \<Rightarrow> 64 word \<Rightarrow> 64 word \<Rightarrow> 64 word" where
  "clamp_len s len offset =
     (if ucast (ioaddr_size s) - offset < len then ucast (ioaddr_size s) - offset else len)"

definition kvm_ivshmem_read :: "ivshmem \<Rightarrow> 64 word \<Rightarrow> 64 word \<Rightarrow> 64 word \<Rightarrow> rw_result" where
  "kvm_ivshmem_read s len poffset uncopied =
     (let offset = poffset in
      if base_addr s = 0 then (0, None, poffset)
      else let len1 = clamp_len s len offset in
        if len1 = 0 then (0, None, poffset)
        else if 0 < sint (ucast uncopied :: 32 word)
          then (- EFAULT, Some (base_addr s + offset, len1), poffset)
        else (sint len1, Some (base_addr s + offset, len1), poffset + len1))"

definition kvm_ivshmem_write :: "ivshmem \<Rightarrow> 64 word \<Rightarrow> 64 word \<Rightarrow> 64 word \<Rightarrow> rw_result" where
  "kvm_ivshmem_write s len poffset uncopied =
     (let offset = poffset in
      if base_addr s = 0 then (0, None, poffset)
      else let len1 = clamp_len s len offset in
        if len1 = 0 then (0, None, poffset)
        else if 0 < sint (ucast uncopied :: 32 word)
          then (- EFAULT, Some (base_addr s + offset, len1), poffset)
        else (sint len1, Some (base_addr s + offset, len1), poffset + len1))"


subsection \<open>A doorbell message as the specification words it\<close>

text \<open>
  Written from the specification, not from the driver: a doorbell message is
  \<^verbatim>\<open>(peer_id << 16) | opcode\<close>, a 32-bit register value.
\<close>

definition spec_doorbell_msg :: "64 word \<Rightarrow> 32 word \<Rightarrow> 32 word" where
  "spec_doorbell_msg target_peer opcode = push_bit 16 (ucast target_peer) OR opcode"

subsection \<open>Callers of \<^verbatim>\<open>down_sema\<close> and interrupts, interleaved\<close>

text \<open>
  To count completed calls over a run, the driver state is put beside the number of
  \<^verbatim>\<open>ioctl(down_sema)\<close> calls that have returned.  Each event is one evaluation of a
  driver function: \<open>Deliver status\<close> is one run of the interrupt handler reading
  \<open>status\<close>; \<open>Down\<close> is one task calling \<^verbatim>\<open>ioctl(fd, down_sema)\<close>, with no signal
  reaching it; \<open>Resume\<close> is one woken task running again, taken off the woken tasks
  and its call evaluated again (nothing happens when no task is woken).  The events
  come in any order.
\<close>

datatype event = Deliver "32 word" | Down | Resume

record system =
  drv :: ivshmem
  completed :: nat

definition call_down :: "system \<Rightarrow> system" where
  "call_down t =
     (case kvm_ivshmem_ioctl down_sema 0 False (drv t) of
        Returns (r, out, s') \<Rightarrow> \<lparr>drv = s', completed = completed t + 1\<rparr>
      | Sleeps s' \<Rightarrow> t\<lparr>drv := s'\<rparr>)"

definition resume_woken :: "system \<Rightarrow> system" where
  "resume_woken t =
     (if sema_woken (drv t) = 0 then t
      else call_down (t\<lparr>drv := (drv t)\<lparr>sema_woken := sema_woken (drv t) - 1\<rparr>\<rparr>))"

definition deliver :: "32 word \<Rightarrow> system \<Rightarrow> system" where
  "deliver status t = t\<lparr>drv := snd (kvm_ivshmem_interrupt True status (drv t))\<rparr>"

fun run :: "event list \<Rightarrow> system \<Rightarrow> system" where
  "run [] t = t"
| "run (Deliver status # evs) t = run evs (deliver status t)"
| "run (Down # evs) t = run evs (call_down t)"
| "run (Resume # evs) t = run evs (resume_woken t)"

text \<open>The system right after \<^verbatim>\<open>sema_init(&sema, n)\<close>, no call having returned yet.\<close>

definition armed :: "64 word \<Rightarrow> ivshmem \<Rightarrow> system" where
  "armed n s = \<lparr>drv = sema_init n s, completed = 0\<rparr>"

text \<open>
  The bookkeeping that every step keeps: \<open>given\<close> is the initial count plus the
  semaphore interrupts so far, \<open>asked\<close> the calls of \<^verbatim>\<open>down_sema\<close> so far.  While a
  task sleeps, the count is no more than the tasks woken and still to run.
\<close>

definition balanced :: "int \<Rightarrow> nat \<Rightarrow> system \<Rightarrow> bool" where
  "balanced given asked t \<longleftrightarrow>
     uint (sema (drv t)) + int (completed t) = given \<and>
     sema_sleepers (drv t) + sema_woken (drv t) + completed t = asked \<and>
     (sema_sleepers (drv t) = 0 \<or> uint (sema (drv t)) \<le> int (sema_woken (drv t)))"

section \<open>The test program (memtest.c)\<close>

text \<open>
  \<^verbatim>\<open>memtest(data, verify)\<close> with \<open>verify\<close> set is the client's read-and-verify pass.
  \<open>test_pmem\<close> is the \<^verbatim>\<open>volatile int *\<close> into the mapped window, read here as the value
  found at each index; \<open>test_mem_size\<close> is a \<^verbatim>\<open>long\<close>; the index \<open>n\<close> is an
  \<^verbatim>\<open>unsigned int\<close>, so \<open>n + 1\<close> wraps, and \<^verbatim>\<open>n < test_mem_size\<close> is compared in
  \<^verbatim>\<open>long\<close>.  \<^verbatim>\<open>test_pmem[n] != (n ^ data)\<close> compares the two 32-bit patterns.  The
  window is taken not to change while the pass runs.

  The inner loop returns the index it stopped at (\<^verbatim>\<open>goto exit\<close>), or no index when it ran
  to the end.  It need not end: the value \<open>None\<close> of the outer option stands for a loop
  that runs forever.
\<close>

definition TEST_LOOPS :: nat where "TEST_LOOPS = 500"

partial_function (option) verify_scan ::
  "(32 word \<Rightarrow> 32 word) \<Rightarrow> int \<Rightarrow> 32 word \<Rightarrow> 32 word \<Rightarrow> 32 word option option" where
  "verify_scan test_pmem test_mem_size data n =
     (if uint n < test_mem_size then
        (if test_pmem n \<noteq> n XOR data then Some (Some n)
         else verify_scan test_pmem test_mem_size data (n + 1))
      else Some None)"

text \<open>The outer loop, counted by the passes still to make.\<close>

fun verify_loops ::
  "nat \<Rightarrow> (32 word \<Rightarrow> 32 word) \<Rightarrow> int \<Rightarrow> 32 word \<Rightarrow> 32 word option option" where
  "verify_loops 0 test_pmem test_mem_size data = Some None"
| "verify_loops (Suc i) test_pmem test_mem_size data =
     (case verify_scan test_pmem test_mem_size data 0 of
        None \<Rightarrow> None
      | Some (Some n) \<Rightarrow> Some (Some n)
      | Some None \<Rightarrow> verify_loops i test_pmem test_mem_size data)"

text \<open>
  The result is \<^verbatim>\<open>ret_val\<close>, the value of \<^verbatim>\<open>vm_control->shutdown\<close> afterwards, and the
  index printed in the error line, if one was printed.  The counters and the timing
  report do not bear on these and are left out.
\<close>

definition memtest_verify ::
  "(32 word \<Rightarrow> 32 word) \<Rightarrow> int \<Rightarrow> 32 word \<Rightarrow> int \<Rightarrow> (int \<times> int \<times> 32 word option) option" where
  "memtest_verify test_pmem test_mem_size data shutdown =
     (case verify_loops TEST_LOOPS test_pmem test_mem_size data of
        None \<Rightarrow> None
      | Some (Some n) \<Rightarrow> Some (1, 1, Some n)
      | Some None \<Rightarrow> Some (0, shutdown, None))"

section \<open>Sample inputs\<close>

text \<open>An attached device with a window of 16 bytes, nothing pending.\<close>

definition sample_dev :: ivshmem where
  "sample_dev =
     \<lparr>base_addr = 0x1000, ioaddr_size = 16, IVPosition = 1, Doorbell = [],
      sema = 0, sema_sleepers = 0, sema_woken = 0,
      event_num = 0, wq_sleepers = 0, wq_woken = 0\<rparr>"

text \<open>The window as the write pass leaves it: \<^verbatim>\<open>test_pmem[n] = (n ^ data)\<close>.\<close>

definition pattern :: "32 word \<Rightarrow> 32 word \<Rightarrow> 32 word" where
  "pattern data n = n XOR data"

section \<open>Properties of the driver\<close>

lemmas ioctl_cmds =
  set_sema_def down_sema_def empty_cmd_def wait_event_def wait_event_irq_def
  read_ivposn_def read_livelist_def sema_irq_def

subsection \<open>The doorbell message\<close>

lemma and_ff64: "(x :: 64 word) AND 0xff = take_bit 8 x"
  by (simp add: take_bit_eq_mask mask_eq_exp_minus_1)

lemma and_ff32: "(x :: 32 word) AND 0xff = take_bit 8 x"
  by (simp add: take_bit_eq_mask mask_eq_exp_minus_1)

text \<open>The two fields of the sum do not overlap, so the sum is their bitwise or.\<close>

lemma doorbell_msg_or:
  "doorbell_msg cmd arg = push_bit 8 (take_bit 8 (ucast arg)) OR take_bit 8 cmd"
proof -
  have "push_bit 8 (take_bit 8 arg) + (ucast (take_bit 8 cmd) :: 64 word)
        = push_bit 8 (take_bit 8 arg) OR ucast (take_bit 8 cmd)"
    by (rule disjunctive_add) (auto simp add: bit_simps)
  then show ?thesis
    unfolding doorbell_msg_def and_ff64 and_ff32
    by (auto simp add: bit_eq_iff bit_simps)
qed

lemma ring_cmd_low: "cmd \<in> {empty_cmd, sema_irq, wait_event_irq} \<Longrightarrow> take_bit 8 cmd = cmd"
  by (auto simp add: ioctl_cmds)

lemma doorbell_msg_high: "drop_bit 16 (doorbell_msg cmd arg) = 0"
  unfolding doorbell_msg_or by (simp add: bit_eq_iff bit_simps)

lemma doorbell_msg_peer:
  "take_bit 8 (drop_bit 8 (doorbell_msg cmd arg)) = take_bit 8 (ucast arg)"
  unfolding doorbell_msg_or by (auto simp add: bit_eq_iff bit_simps)

lemma doorbell_msg_opcode: "take_bit 8 (doorbell_msg cmd arg) = take_bit 8 cmd"
  unfolding doorbell_msg_or by (auto simp add: bit_eq_iff bit_simps)

lemma ring_ioctl:
  "cmd \<in> {empty_cmd, sema_irq, wait_event_irq} \<Longrightarrow>
   kvm_ivshmem_ioctl cmd arg sig s =
     Returns (0, None, s\<lparr>Doorbell := Doorbell s @ [doorbell_msg cmd arg]\<rparr>)"
  by (auto simp add: kvm_ivshmem_ioctl_def ioctl_cmds writel_Doorbell_def)

text \<open>
  C1, as amended.  For each of the ring commands \<open>empty\<close>, \<open>sema_irq\<close> and
  \<open>wait_event_irq\<close> with argument \<open>arg\<close>, the call returns 0 and writes one value to
  the doorbell register, \<^verbatim>\<open>((arg & 0xff) << 8) | cmd\<close>: the low 8 bits of the target
  peer in bits 8 to 15, the command in bits 0 to 7, and bits 16 to 31 zero.
\<close>

theorem ring_writes_peer_shl_8_or_cmd:
  "cmd \<in> {empty_cmd, sema_irq, wait_event_irq} \<Longrightarrow>
   (\<exists>msg. kvm_ivshmem_ioctl cmd arg sig s =
             Returns (0, None, s\<lparr>Doorbell := Doorbell s @ [msg]\<rparr>)
     \<and> msg = push_bit 8 (take_bit 8 (ucast arg)) OR cmd
     \<and> drop_bit 16 msg = 0
     \<and> take_bit 8 (drop_bit 8 msg) = take_bit 8 (ucast arg)
     \<and> take_bit 8 msg = cmd)"
  using ring_ioctl [of cmd arg sig s] doorbell_msg_or [of cmd arg] ring_cmd_low [of cmd]
    doorbell_msg_high [of cmd arg] doorbell_msg_peer [of cmd arg]
    doorbell_msg_opcode [of cmd arg]
  by simp

theorem ring_writes_peer_shl_8_or_cmd_witness:
  "sema_irq \<in> {empty_cmd, sema_irq, wait_event_irq} \<and>
   kvm_ivshmem_ioctl sema_irq 0x1ff False sample_dev =
     Returns (0, None, sample_dev\<lparr>Doorbell := [0xff07]\<rparr>)"
  using ring_writes_peer_shl_8_or_cmd [of sema_irq "0x1ff" False sample_dev]
  by (simp add: sample_dev_def sema_irq_def)

text \<open>
  Ringing peer 1 with \<open>empty\<close> writes \<open>0x0102\<close>; \<^verbatim>\<open>(1 << 16) | 2\<close> is \<open>0x10002\<close>.
\<close>

theorem ring_peer_1_not_shl_16:
  "kvm_ivshmem_ioctl empty_cmd 1 False sample_dev =
     Returns (0, None, sample_dev\<lparr>Doorbell := [0x0102]\<rparr>)
   \<and> spec_doorbell_msg 1 empty_cmd = 0x10002
   \<and> doorbell_msg empty_cmd 1 \<noteq> spec_doorbell_msg 1 empty_cmd"
  by (simp add: kvm_ivshmem_ioctl_def ioctl_cmds doorbell_msg_def writel_Doorbell_def
        sample_dev_def spec_doorbell_msg_def)

subsection \<open>The interrupt handler\<close>

text \<open>
  C6.  When the status register reads zero or all-ones the handler returns
  \<^verbatim>\<open>IRQ_NONE\<close> and the state, the semaphore count and the event flag included, is the
  one it found.
\<close>

theorem spurious_interrupt_not_handled:
  "status = 0 \<or> status = 0xFFFFFFFF \<Longrightarrow>
   kvm_ivshmem_interrupt dev status s = (IRQ_NONE, s)"
  by (auto simp add: kvm_ivshmem_interrupt_def)

theorem spurious_interrupt_not_handled_witness:
  "((0xFFFFFFFF :: 32 word) = 0 \<or> (0xFFFFFFFF :: 32 word) = 0xFFFFFFFF)
   \<and> kvm_ivshmem_interrupt True 0xFFFFFFFF (sample_dev\<lparr>sema := 3, event_num := 1\<rparr>)
       = (IRQ_NONE, sample_dev\<lparr>sema := 3, event_num := 1\<rparr>)"
  using spurious_interrupt_not_handled
    [of "0xFFFFFFFF" True "sample_dev\<lparr>sema := 3, event_num := 1\<rparr>"]
  by simp




subsection \<open>The blocking commands\<close>

text \<open>
  C3, as amended.  When a signal ends the sleep of \<open>down_sema\<close> (count zero) or of
  \<open>wait_event\<close> (flag not 1), the ioctl returns 0, as a completed call does: the
  interruption is not reported.  \<open>down_sema\<close> leaves the state as it was, with no
  decrement; \<open>wait_event\<close> stores 0 in the event flag, so a flag that was 0 stays
  as it was.
\<close>

theorem interrupted_wait_returns_zero:
  "(sema s = 0 \<longrightarrow> kvm_ivshmem_ioctl down_sema arg True s = Returns (0, None, s))
   \<and> (event_num s \<noteq> 1 \<longrightarrow>
        kvm_ivshmem_ioctl wait_event arg True s = Returns (0, None, s\<lparr>event_num := 0\<rparr>))
   \<and> (event_num s = 0 \<longrightarrow>
        kvm_ivshmem_ioctl wait_event arg True s = Returns (0, None, s))"
  by (simp add: kvm_ivshmem_ioctl_def ioctl_cmds down_interruptible_def
        wait_event_interruptible_def)

theorem interrupted_wait_returns_zero_witness:
  "sema sample_dev = 0 \<and> event_num sample_dev \<noteq> 1
   \<and> kvm_ivshmem_ioctl down_sema 0 True sample_dev = Returns (0, None, sample_dev)
   \<and> kvm_ivshmem_ioctl wait_event 0 True sample_dev = Returns (0, None, sample_dev)"
  using interrupted_wait_returns_zero [of sample_dev 0]
  by (simp add: sample_dev_def)

text \<open>
  An interrupted \<open>down_sema\<close> returns what a \<open>down_sema\<close> that took the semaphore
  returns, and not \<^verbatim>\<open>-EINTR\<close>.
\<close>

theorem interrupted_down_reports_success:
  "kvm_ivshmem_ioctl down_sema 0 True sample_dev = Returns (0, None, sample_dev)
   \<and> kvm_ivshmem_ioctl down_sema 0 True (sample_dev\<lparr>sema := 1\<rparr>)
       = Returns (0, None, sample_dev)
   \<and> kvm_ivshmem_ioctl down_sema 0 True sample_dev \<noteq> Returns (- EINTR, None, sample_dev)
   \<and> kvm_ivshmem_ioctl wait_event 0 True sample_dev
       \<noteq> Returns (- ERESTARTSYS, None, sample_dev)"
  by (simp add: kvm_ivshmem_ioctl_def ioctl_cmds down_interruptible_def
        wait_event_interruptible_def sample_dev_def EINTR_def ERESTARTSYS_def)

text \<open>
  C8.  A \<open>wait_event\<close> call that finds the event flag set returns at once, whether or
  not a signal is pending, and clears the flag.
\<close>

theorem wait_event_flag_set_returns:
  "event_num s = 1 \<Longrightarrow>
   kvm_ivshmem_ioctl wait_event arg sig s = Returns (0, None, s\<lparr>event_num := 0\<rparr>)"
  by (simp add: kvm_ivshmem_ioctl_def ioctl_cmds wait_event_interruptible_def)

theorem wait_event_flag_set_returns_witness:
  "event_num (snd (kvm_ivshmem_interrupt True wait_event_irq sample_dev)) = 1 \<and>
   kvm_ivshmem_ioctl wait_event 0 False
       (snd (kvm_ivshmem_interrupt True wait_event_irq sample_dev))
     = Returns (0, None, sample_dev)"
proof -
  have e: "event_num (snd (kvm_ivshmem_interrupt True wait_event_irq sample_dev)) = 1"
    by (simp add: kvm_ivshmem_interrupt_def ioctl_cmds wake_up_interruptible_def)
  show ?thesis using e wait_event_flag_set_returns [OF e, of 0 False]
    by (simp add: kvm_ivshmem_interrupt_def ioctl_cmds wake_up_interruptible_def
          sample_dev_def)
qed

subsection \<open>Counting semaphore interrupts and completed calls\<close>

text \<open>
  A task woken by the semaphore interrupt on a count of zero takes the count when it
  runs again, and its call returns.
\<close>

lemma woken_down_caller_returns:
  "sema s = 0 \<Longrightarrow> 0 < sema_sleepers s \<Longrightarrow> sema_woken s = 0 \<Longrightarrow>
   resume_woken \<lparr>drv = snd (kvm_ivshmem_interrupt True sema_irq s), completed = c\<rparr>
     = \<lparr>drv = s\<lparr>sema_sleepers := sema_sleepers s - 1\<rparr>, completed = c + 1\<rparr>"
  by (simp add: resume_woken_def call_down_def kvm_ivshmem_interrupt_def up_def
        kvm_ivshmem_ioctl_def down_interruptible_def ioctl_cmds)

lemma uint_dec:
  fixes x :: "32 word"
  assumes "x \<noteq> 0"
  shows "uint (x - 1) = uint x - 1"
proof -
  have "uint x \<noteq> 0" using assms by (simp add: uint_0_iff)
  moreover have "0 \<le> uint x" by simp
  ultimately have "1 \<le> uint x" by linarith
  then have "uint (1 :: 32 word) \<le> uint x" by simp
  then have "uint (x - 1) = uint x - uint (1 :: 32 word)"
    by (rule uint_sub_lem [THEN iffD1])
  then show ?thesis by simp
qed

lemma uint_inc:
  fixes x :: "32 word"
  assumes "uint x + 1 < 2 ^ 32"
  shows "uint (x + 1) = uint x + 1"
proof -
  from assms have "uint x + uint (1 :: 32 word) < 2 ^ LENGTH(32)" by simp
  then have "uint (x + 1) = uint x + uint (1 :: 32 word)"
    by (rule uint_add_lem [THEN iffD1])
  then show ?thesis by simp
qed

lemma down_taken:
  "sema s \<noteq> 0 \<Longrightarrow>
   kvm_ivshmem_ioctl down_sema arg sig s = Returns (0, None, s\<lparr>sema := sema s - 1\<rparr>)"
  by (simp add: kvm_ivshmem_ioctl_def down_interruptible_def ioctl_cmds word_greater_zero_iff)

lemma down_sleeps:
  "sema s = 0 \<Longrightarrow>
   kvm_ivshmem_ioctl down_sema arg False s = Sleeps (s\<lparr>sema_sleepers := sema_sleepers s + 1\<rparr>)"
  by (simp add: kvm_ivshmem_ioctl_def down_interruptible_def ioctl_cmds)

lemma balanced_call_down: 
  assumes "balanced g a t"
  shows "balanced g (Suc a) (call_down t)"
proof (cases "sema (drv t) = 0")
  case True
  with assms show ?thesis
    by (simp add: balanced_def call_down_def down_sleeps)
next
  case False
  with assms show ?thesis
    by (auto simp add: balanced_def call_down_def down_taken uint_dec)
qed

lemma balanced_resume_woken:
  assumes "balanced g a t"
  shows "balanced g a (resume_woken t)"
proof (cases "sema_woken (drv t) = 0")
  case True
  with assms show ?thesis by (simp add: resume_woken_def)
next
  case woken: False
  show ?thesis
  proof (cases "sema (drv t) = 0")
    case True
    with assms woken show ?thesis
      by (simp add: balanced_def resume_woken_def call_down_def down_sleeps)
  next
    case False
    with assms woken show ?thesis
      by (auto simp add: balanced_def resume_woken_def call_down_def down_taken uint_dec)
  qed
qed

lemma interrupt_other_status:
  "status \<noteq> sema_irq \<Longrightarrow>
   sema (snd (kvm_ivshmem_interrupt True status s)) = sema s \<and>
   sema_sleepers (snd (kvm_ivshmem_interrupt True status s)) = sema_sleepers s \<and>
   sema_woken (snd (kvm_ivshmem_interrupt True status s)) = sema_woken s"
  by (simp add: kvm_ivshmem_interrupt_def wake_up_interruptible_def)

lemma interrupt_sema_irq: "snd (kvm_ivshmem_interrupt True sema_irq s) = up s"
  by (simp add: kvm_ivshmem_interrupt_def sema_irq_def)

lemma balanced_deliver_other:
  assumes "balanced g a t" and "status \<noteq> sema_irq"
  shows "balanced g a (deliver status t)"
  using assms interrupt_other_status [OF assms(2), of "drv t"]
  by (simp add: balanced_def deliver_def)

lemma balanced_deliver_sema_irq:
  assumes "balanced g a t" and "g + 1 < 2 ^ 32"
  shows "balanced (g + 1) a (deliver sema_irq t)"
proof -
  from assms(1) have g: "uint (sema (drv t)) + int (completed t) = g"
    by (simp add: balanced_def)
  from g assms(2) have "uint (sema (drv t)) + 1 < 2 ^ 32" by linarith
  then have inc: "uint (sema (drv t) + 1) = uint (sema (drv t)) + 1" by (rule uint_inc)
  show ?thesis
  proof (cases "sema_sleepers (drv t) = 0")
    case True
    with assms(1) inc show ?thesis
      by (simp add: balanced_def deliver_def interrupt_sema_irq up_def)
  next
    case False
    with assms(1) inc show ?thesis
      by (auto simp add: balanced_def deliver_def interrupt_sema_irq up_def)
  qed
qed

lemma balanced_run:
  "balanced g a t \<Longrightarrow> g + int (count_list evs (Deliver sema_irq)) < 2 ^ 32 \<Longrightarrow>
   balanced (g + int (count_list evs (Deliver sema_irq))) (a + count_list evs Down) (run evs t)"
proof (induction evs arbitrary: g a t)
  case Nil
  then show ?case by simp
next
  case (Cons e evs)
  show ?case
  proof (cases e)
    case Down
    from Cons.prems(2) Down
    have "g + int (count_list evs (Deliver sema_irq)) < 2 ^ 32" by simp
    from Cons.IH [OF balanced_call_down [OF Cons.prems(1)] this]
    show ?thesis using Down by simp
  next
    case Resume
    from Cons.prems(2) Resume
    have "g + int (count_list evs (Deliver sema_irq)) < 2 ^ 32" by simp
    from Cons.IH [OF balanced_resume_woken [OF Cons.prems(1)] this]
    show ?thesis using Resume by simp
  next
    case (Deliver status)
    show ?thesis
    proof (cases "status = sema_irq")
      case True
      with Cons.prems(2) Deliver
      have b: "(g + 1) + int (count_list evs (Deliver sema_irq)) < 2 ^ 32" by simp
      then have "g + 1 < 2 ^ 32" by linarith
      from Cons.IH [OF balanced_deliver_sema_irq [OF Cons.prems(1) this] b]
      show ?thesis using Deliver True by (simp add: add.assoc)
    next
      case False
      with Cons.prems(2) Deliver
      have b: "g + int (count_list evs (Deliver sema_irq)) < 2 ^ 32" by simp
      from Cons.IH [OF balanced_deliver_other [OF Cons.prems(1) False] b]
      show ?thesis using Deliver False by simp
    qed
  qed
qed

lemma balanced_completed:
  assumes "balanced g a t" and "sema_woken (drv t) = 0"
  shows "int (completed t) = min (int a) g"
proof -
  from assms have g: "uint (sema (drv t)) + int (completed t) = g"
    and a: "sema_sleepers (drv t) + completed t = a"
    and z: "sema_sleepers (drv t) = 0 \<or> uint (sema (drv t)) \<le> 0"
    by (simp_all add: balanced_def)
  have pos: "0 \<le> uint (sema (drv t))" by simp
  from z show ?thesis
  proof
    assume "sema_sleepers (drv t) = 0"
    with a have "completed t = a" by simp
    moreover from g pos have "int (completed t) \<le> g" by linarith
    ultimately show ?thesis by (simp add: min_def)
  next
    assume "uint (sema (drv t)) \<le> 0"
    with pos have "uint (sema (drv t)) = 0" by linarith
    with g have "int (completed t) = g" by simp
    moreover from a have "int (completed t) \<le> int a" by linarith
    ultimately show ?thesis by (simp add: min_def)
  qed
qed

text \<open>
  C7, as amended.  After \<^verbatim>\<open>sema_init(&sema, n)\<close> with no woken caller still to run,
  over every interleaving of interrupts, \<open>down_sema\<close> calls that no signal interrupts
  and woken callers running again, in which \<open>n\<close> plus the interrupts with status
  \<open>sema_irq\<close> stays below \<open>2^32\<close>: once every woken caller has run again, the calls
  that have returned are the smaller of the calls made and of \<open>n\<close> plus those
  interrupts.  With \<open>n = 0\<close> they never exceed the interrupts and equal them as soon
  as that many calls have been made.  In particular, after \<^verbatim>\<open>sema_init(&sema, 0)\<close> and
  two such interrupts with no call in between, two calls return and a third sleeps.
\<close>

theorem down_completions_min_calls_deliveries:
  "(sema_woken s = 0 \<longrightarrow>
    uint (ucast n :: 32 word) + int (count_list evs (Deliver sema_irq)) < 2 ^ 32 \<longrightarrow>
    sema_woken (drv (run evs (armed n s))) = 0 \<longrightarrow>
      int (completed (run evs (armed n s)))
        = min (int (count_list evs Down))
              (uint (ucast n :: 32 word) + int (count_list evs (Deliver sema_irq))))
   \<and> (\<exists>s1 s2 s3.
        kvm_ivshmem_ioctl down_sema arg False
          (snd (kvm_ivshmem_interrupt True sema_irq
            (snd (kvm_ivshmem_interrupt True sema_irq (sema_init 0 s)))))
          = Returns (0, None, s1)
        \<and> kvm_ivshmem_ioctl down_sema arg False s1 = Returns (0, None, s2)
        \<and> kvm_ivshmem_ioctl down_sema arg False s2 = Sleeps s3)"
proof -
  have scen: "\<exists>s1 s2 s3.
        kvm_ivshmem_ioctl down_sema arg False
          (snd (kvm_ivshmem_interrupt True sema_irq
            (snd (kvm_ivshmem_interrupt True sema_irq (sema_init 0 s)))))
          = Returns (0, None, s1)
        \<and> kvm_ivshmem_ioctl down_sema arg False s1 = Returns (0, None, s2)
        \<and> kvm_ivshmem_ioctl down_sema arg False s2 = Sleeps s3"
    by (simp add: kvm_ivshmem_interrupt_def kvm_ivshmem_ioctl_def up_def sema_init_def
          down_interruptible_def ioctl_cmds)
  have "int (completed (run evs (armed n s)))
        = min (int (count_list evs Down))
              (uint (ucast n :: 32 word) + int (count_list evs (Deliver sema_irq)))"
    if w: "sema_woken s = 0"
      and b: "uint (ucast n :: 32 word) + int (count_list evs (Deliver sema_irq)) < 2 ^ 32"
      and f: "sema_woken (drv (run evs (armed n s))) = 0"
  proof -
    from w have "balanced (uint (ucast n :: 32 word)) 0 (armed n s)"
      by (simp add: balanced_def armed_def sema_init_def)
    from balanced_completed [OF balanced_run [OF this b] f] show ?thesis by simp
  qed
  with scen show ?thesis by blast
qed

lemmas run_defs =
  armed_def sema_init_def sample_dev_def call_down_def deliver_def
  resume_woken_def kvm_ivshmem_interrupt_def up_def kvm_ivshmem_ioctl_def
  down_interruptible_def ioctl_cmds

theorem down_completions_min_calls_deliveries_witness:
  "sema_woken sample_dev = 0
   \<and> uint (ucast (1 :: 64 word) :: 32 word)
       + int (count_list
               [Down, Down, Deliver sema_irq, Resume, Deliver 9, Deliver sema_irq, Down, Down]
               (Deliver sema_irq)) < 2 ^ 32
   \<and> sema_woken (drv (run
        [Down, Down, Deliver sema_irq, Resume, Deliver 9, Deliver sema_irq, Down, Down]
        (armed 1 sample_dev))) = 0
   \<and> completed
       (run [Down, Down, Deliver sema_irq, Resume, Deliver 9, Deliver sema_irq, Down, Down]
          (armed 1 sample_dev)) = 3"
proof -
  let ?evs = "[Down, Down, Deliver sema_irq, Resume, Deliver 9, Deliver sema_irq, Down, Down]"
  have w: "sema_woken sample_dev = 0" by (simp add: sample_dev_def)
  have b: "uint (ucast (1 :: 64 word) :: 32 word)
       + int (count_list ?evs (Deliver sema_irq)) < 2 ^ 32"
    by (simp add: sema_irq_def)
  have f: "sema_woken (drv (run ?evs (armed 1 sample_dev))) = 0"
    by (simp add: run_defs)
  from down_completions_min_calls_deliveries [of sample_dev 1 ?evs 0] w b f
  have "int (completed (run ?evs (armed 1 sample_dev)))
     = min (int (count_list ?evs Down))
           (uint (ucast (1 :: 64 word) :: 32 word) + int (count_list ?evs (Deliver sema_irq)))"
    by blast
  also have "\<dots> = 3" by (simp add: sema_irq_def)
  finally have "completed (run ?evs (armed 1 sample_dev)) = 3" by simp
  with w b f show ?thesis by blast
qed

text \<open>
  After \<^verbatim>\<open>sema_init(&sema, 1)\<close> one call returns with no interrupt delivered.  After
  \<^verbatim>\<open>sema_init(&sema, 0xFFFFFFFF)\<close> one interrupt wraps the count to zero and the call
  that follows sleeps.  A call that a signal interrupts returns 0 with no interrupt
  delivered.
\<close>

theorem down_completions_differ_from_deliveries:
  "completed (run [Down] (armed 1 sample_dev)) = 1
   \<and> count_list [Down] (Deliver sema_irq) = 0
   \<and> completed (run [Deliver sema_irq, Down] (armed 0xFFFFFFFF sample_dev)) = 0
   \<and> count_list [Deliver sema_irq, Down] (Deliver sema_irq) = 1
   \<and> kvm_ivshmem_ioctl down_sema 0 True (sema_init 0 sample_dev)
       = Returns (0, None, sema_init 0 sample_dev)"
  by (simp add: run_defs)

subsection \<open>Seeking\<close>

text \<open>
  C10.  For every origin other than \<^verbatim>\<open>SEEK_SET\<close> and \<^verbatim>\<open>SEEK_CUR\<close>, \<^verbatim>\<open>SEEK_END\<close> among
  them, the seek returns \<open>-1\<close> and the file position stays where it was.
\<close>

theorem lseek_other_origin_fails:
  "origin \<noteq> SEEK_SET \<Longrightarrow> origin \<noteq> SEEK_CUR \<Longrightarrow>
   kvm_ivshmem_lseek s f_pos offset origin = (- 1, f_pos)"
  by (simp add: kvm_ivshmem_lseek_def)

theorem lseek_other_origin_fails_witness:
  "SEEK_END \<noteq> SEEK_SET \<and> SEEK_END \<noteq> SEEK_CUR
   \<and> kvm_ivshmem_lseek sample_dev 5 0 SEEK_END = (- 1, 5)"
proof -
  have a: "SEEK_END \<noteq> SEEK_SET" and b: "SEEK_END \<noteq> SEEK_CUR"
    by (simp_all add: SEEK_END_def SEEK_SET_def SEEK_CUR_def)
  show ?thesis using a b lseek_other_origin_fails [OF a b, of sample_dev 5 0] by simp
qed

subsection \<open>Reading and writing the window\<close>

lemma sint_small:
  fixes w :: "64 word"
  assumes "uint w < 2 ^ 63"
  shows "sint w = uint w"
proof -
  have "sint w = signed_take_bit 63 (uint w)"
    by (simp add: sint_uint)
  also have "\<dots> = uint w"
  proof -
    have "- (2 ^ 63) \<le> (0 :: int)" by simp
    also have "0 \<le> uint w" by simp
    finally have "- (2 ^ 63) \<le> uint w" .
    with assms show ?thesis by (simp only: signed_take_bit_int_eq_self_iff)
  qed
  finally show ?thesis .
qed

lemma uint_clamp_len:
  assumes "uint offset \<le> uint (ioaddr_size s)"
  shows "uint (clamp_len s len offset) = min (uint len) (uint (ioaddr_size s) - uint offset)"
proof -
  have up: "uint (ucast (ioaddr_size s) :: 64 word) = uint (ioaddr_size s)"
    by (rule uint_up_ucast) (simp add: is_up)
  with assms have "uint offset \<le> uint (ucast (ioaddr_size s) :: 64 word)" by simp
  then have "uint (ucast (ioaddr_size s) - offset :: 64 word)
               = uint (ucast (ioaddr_size s) :: 64 word) - uint offset"
    by (rule uint_sub_lem [THEN iffD1])
  with up have room: "uint (ucast (ioaddr_size s) - offset :: 64 word)
               = uint (ioaddr_size s) - uint offset" by simp
  show ?thesis
    unfolding clamp_len_def using room by (simp add: word_less_alt)
qed

lemma clamp_len_small:
  assumes "uint offset \<le> uint (ioaddr_size s)"
  shows "sint (clamp_len s len offset) = uint (clamp_len s len offset)"
proof -
  have "uint (ioaddr_size s) < 2 ^ 32" using uint_lt2p [of "ioaddr_size s"] by simp
  moreover have "0 \<le> uint offset" by simp
  ultimately have "uint (clamp_len s len offset) < 2 ^ 32"
    unfolding uint_clamp_len [OF assms] by linarith
  then have "uint (clamp_len s len offset) < 2 ^ 63" by simp
  then show ?thesis by (rule sint_small)
qed

text \<open>
  Inside the window, the end included, and with a copy that succeeds, both functions
  move \<open>min len (ioaddr_size - offset)\<close> bytes, return that number and advance the
  position by it; at the very end that is zero bytes.
\<close>

lemma rw_in_window:
  assumes "base_addr s \<noteq> 0" and "uint offset \<le> uint (ioaddr_size s)"
  shows "\<exists>n. uint n = min (uint len) (uint (ioaddr_size s) - uint offset) \<and>
           kvm_ivshmem_read s len offset 0 =
             (if n = 0 then (0, None, offset)
              else (uint n, Some (base_addr s + offset, n), offset + n)) \<and>
           kvm_ivshmem_write s len offset 0 =
             (if n = 0 then (0, None, offset)
              else (uint n, Some (base_addr s + offset, n), offset + n))"
  using assms(1) uint_clamp_len [OF assms(2), of len] clamp_len_small [OF assms(2), of len]
  by (intro exI [of _ "clamp_len s len offset"])
     (simp add: kvm_ivshmem_read_def kvm_ivshmem_write_def Let_def)

text \<open>
  C4, at an offset past the end.  The window has 16 bytes and the position is 17:
  \<^verbatim>\<open>ioaddr_size - offset\<close> wraps to \<open>2^64 - 1\<close>, the request of 4 bytes is not
  shortened, and both functions copy 4 bytes at \<open>base_addr + 17\<close> and return 4.
\<close>

theorem rw_past_window_end_copies:
  "kvm_ivshmem_read sample_dev 4 17 0 = (4, Some (0x1011, 4), 21) \<and>
   kvm_ivshmem_write sample_dev 4 17 0 = (4, Some (0x1011, 4), 21)"
  by (simp add: kvm_ivshmem_read_def kvm_ivshmem_write_def clamp_len_def sample_dev_def)

text \<open>
  C5, as amended.  With a window that was never mapped (\<open>base_addr\<close> null), every read
  and every write returns 0, copies nothing and leaves the position where it was.
\<close>

theorem rw_unmapped_returns_zero:
  "base_addr s = 0 \<Longrightarrow>
   kvm_ivshmem_read s len poffset uncopied = (0, None, poffset) \<and>
   kvm_ivshmem_write s len poffset uncopied = (0, None, poffset)"
  by (simp add: kvm_ivshmem_read_def kvm_ivshmem_write_def)

theorem rw_unmapped_returns_zero_witness:
  "base_addr (sample_dev\<lparr>base_addr := 0\<rparr>) = 0 \<and>
   kvm_ivshmem_read (sample_dev\<lparr>base_addr := 0\<rparr>) 4 0 0 = (0, None, 0) \<and>
   kvm_ivshmem_write (sample_dev\<lparr>base_addr := 0\<rparr>) 4 0 0 = (0, None, 0)"
  using rw_unmapped_returns_zero [of "sample_dev\<lparr>base_addr := 0\<rparr>" 4 0 0]
  by simp

text \<open>
  On the unmapped device a read and a write give the very result they give at the end
  of a mapped window, the return value 0.
\<close>

theorem rw_unmapped_same_as_end_of_window:
  "kvm_ivshmem_read (sample_dev\<lparr>base_addr := 0\<rparr>) 4 16 0 = kvm_ivshmem_read sample_dev 4 16 0
   \<and> kvm_ivshmem_write (sample_dev\<lparr>base_addr := 0\<rparr>) 4 16 0
       = kvm_ivshmem_write sample_dev 4 16 0
   \<and> fst (kvm_ivshmem_read (sample_dev\<lparr>base_addr := 0\<rparr>) 4 16 0) = 0
   \<and> fst (kvm_ivshmem_write (sample_dev\<lparr>base_addr := 0\<rparr>) 4 16 0) = 0"
  by (simp add: kvm_ivshmem_read_def kvm_ivshmem_write_def clamp_len_def sample_dev_def)

section \<open>Properties of the test program\<close>

lemma uint_next:
  fixes n :: "32 word"
  assumes "uint n < b" "b < 2 ^ 32"
  shows "uint (n + 1) = uint n + 1"
proof -
  from assms have "uint n + uint (1 :: 32 word) < 2 ^ LENGTH(32)" by simp
  then have "uint (n + 1) = uint n + uint (1 :: 32 word)"
    by (rule uint_add_lem [THEN iffD1])
  then show ?thesis by simp
qed

text \<open>From \<open>n\<close> on, the scan stops at the first index that does not hold its pattern.\<close>

lemma scan_mismatch:
  assumes "uint m < sz" and "pmem m \<noteq> m XOR d"
  shows "n \<le> m \<Longrightarrow> (\<forall>k. n \<le> k \<and> k < m \<longrightarrow> pmem k = k XOR d) \<Longrightarrow>
         verify_scan pmem sz d n = Some (Some m)"
proof (induction "nat (uint m - uint n)" arbitrary: n)
  case 0
  then have "n = m" by (simp add: word_le_def word_uint_eq_iff)
  then show ?case using assms by (subst verify_scan.simps) simp
next
  case (Suc j)
  then have lt: "n < m" by (simp add: word_less_alt)
  then have here: "uint n < sz" using assms(1) by (simp add: word_less_alt)
  have same: "pmem n = n XOR d" using Suc.prems lt by simp
  have "uint m < 2 ^ 32" using uint_lt2p [of m] by simp
  with lt have nx: "uint (n + 1) = uint n + 1"
    by (intro uint_next [of n "uint m"]) (simp_all add: word_less_alt)
  have le: "n + 1 \<le> m" using lt by (rule inc_le)
  have rest: "\<forall>k. n + 1 \<le> k \<and> k < m \<longrightarrow> pmem k = k XOR d"
    using Suc.prems(2) nx by (auto simp add: word_le_def)
  have "j = nat (uint m - uint (n + 1))" using Suc.hyps(2) nx by simp
  from Suc.hyps(1) [OF this le rest]
  show ?case using here same by (subst verify_scan.simps) simp
qed

text \<open>
  When every index below the size holds its pattern the scan reaches the size and
  ends, provided the size can be reached by a 32-bit index at all.
\<close>

lemma scan_pass:
  assumes "sz < 2 ^ 32"
  shows "(\<forall>k. n \<le> k \<and> uint k < sz \<longrightarrow> pmem k = k XOR d) \<Longrightarrow>
         verify_scan pmem sz d n = Some None"
proof (induction "nat (sz - uint n)" arbitrary: n rule: less_induct)
  case less
  show ?case
  proof (cases "uint n < sz")
    case False
    then show ?thesis by (subst verify_scan.simps) simp
  next
    case True
    from True assms have nx: "uint (n + 1) = uint n + 1" by (rule uint_next)
    have same: "pmem n = n XOR d" using less.prems True by simp
    have rest: "\<forall>k. n + 1 \<le> k \<and> uint k < sz \<longrightarrow> pmem k = k XOR d"
      using less.prems nx by (auto simp add: word_le_def)
    have "nat (sz - uint (n + 1)) < nat (sz - uint n)" using nx True by simp
    from less.hyps [OF this rest]
    show ?thesis using True same by (subst verify_scan.simps) simp
  qed
qed

lemma loops_pass:
  "verify_scan pmem sz d 0 = Some None \<Longrightarrow> verify_loops i pmem sz d = Some None"
  by (induction i) simp_all

lemma memtest_mismatch:
  assumes "uint m < sz" and "pmem m \<noteq> m XOR d" and "\<forall>k<m. pmem k = k XOR d"
  shows "memtest_verify pmem sz d sh = Some (1, 1, Some m)"
proof -
  have "verify_scan pmem sz d 0 = Some (Some m)"
    using assms by (intro scan_mismatch) simp_all
  then show ?thesis by (simp add: memtest_verify_def TEST_LOOPS_def numeral_eq_Suc)
qed

lemma memtest_pass:
  assumes "sz < 2 ^ 32" and "\<forall>k. uint k < sz \<longrightarrow> pmem k = k XOR d"
  shows "memtest_verify pmem sz d sh = Some (0, sh, None)"
proof -
  have "verify_scan pmem sz d 0 = Some None"
    using assms by (intro scan_pass) simp_all
  then show ?thesis by (simp add: memtest_verify_def loops_pass)
qed

lemma first_mismatch:
  fixes n :: "32 word"
  assumes "uint n < sz" and "pmem n \<noteq> n XOR d"
  shows "\<exists>m. uint m < sz \<and> pmem m \<noteq> m XOR d \<and> (\<forall>k<m. pmem k = k XOR d)"
proof -
  define P where "P k \<longleftrightarrow> pmem k \<noteq> k XOR d" for k
  define m where "m = (LEAST k. P k)"
  have Pn: "P n" using assms by (simp add: P_def)
  then have Pm: "P m" unfolding m_def by (rule LeastI)
  have "m \<le> n" unfolding m_def using Pn by (rule Least_le)
  then have "uint m < sz" using assms(1) by (simp add: word_le_def)
  moreover have "\<forall>k<m. \<not> P k" unfolding m_def using not_less_Least by blast
  ultimately show ?thesis using Pm by (auto simp add: P_def)
qed

text \<open>
  A size of \<open>2^32\<close> or more is never reached by the 32-bit index: over a window
  that holds its pattern everywhere the scan, and with it the pass, does not return.
\<close>

lemma scan_returns_only_if:
  assumes "verify_scan pmem sz d n = Some y"
  shows "\<not> (2 ^ 32 \<le> sz \<and> (\<forall>k. pmem k = k XOR d))"
proof (rule verify_scan.raw_induct
    [where P = "\<lambda>pmem sz d n y. \<not> (2 ^ 32 \<le> sz \<and> (\<forall>k. pmem k = k XOR d))", OF _ assms])
  fix f :: "(32 word \<Rightarrow> 32 word) \<Rightarrow> int \<Rightarrow> 32 word \<Rightarrow> 32 word \<Rightarrow> 32 word option option"
  fix a b c e r
  assume IH: "\<And>a b c e y. f a b c e = Some y \<Longrightarrow> \<not> (2 ^ 32 \<le> b \<and> (\<forall>k. a k = k XOR c))"
  assume eq: "(if uint e < b then if a e \<noteq> e XOR c then Some (Some e) else f a b c (e + 1)
               else Some None) = Some r"
  show "\<not> (2 ^ 32 \<le> b \<and> (\<forall>k. a k = k XOR c))"
  proof
    assume h: "2 ^ 32 \<le> b \<and> (\<forall>k. a k = k XOR c)"
    have "uint e < 2 ^ 32" using uint_lt2p [of e] by simp
    with h have "uint e < b" by linarith
    with h eq have "f a b c (e + 1) = Some r" by simp
    from IH [OF this] h show False by simp
  qed
qed

lemma memtest_never_ends:
  assumes "2 ^ 32 \<le> sz" and "\<forall>k. pmem k = k XOR d"
  shows "memtest_verify pmem sz d sh = None"
proof -
  have "verify_scan pmem sz d 0 = None"
    using scan_returns_only_if [of pmem sz d 0] assms
    by (cases "verify_scan pmem sz d 0") auto
  then show ?thesis
    by (simp add: memtest_verify_def TEST_LOOPS_def numeral_eq_Suc)
qed

text \<open>
  C9.  If some slot below \<open>test_mem_size\<close> differs from \<open>index XOR d\<close>, the pass
  returns 1, sets \<open>shutdown\<close> to 1 and reports the first such index, without looking
  further.  If every slot equals \<open>index XOR d\<close> (and \<open>test_mem_size\<close> is below
  \<open>2^32\<close>, so that the 32-bit index can reach it), the pass returns 0 and leaves
  \<open>shutdown\<close> as it was.
\<close>

theorem verify_pass_reports_first_mismatch:
  "((\<exists>n. uint n < test_mem_size \<and> test_pmem n \<noteq> n XOR d) \<longrightarrow>
      (\<exists>m. memtest_verify test_pmem test_mem_size d shutdown = Some (1, 1, Some m)
           \<and> uint m < test_mem_size \<and> test_pmem m \<noteq> m XOR d
           \<and> (\<forall>k<m. test_pmem k = k XOR d)))
   \<and> (test_mem_size < 2 ^ 32 \<longrightarrow>
        (\<forall>n. uint n < test_mem_size \<longrightarrow> test_pmem n = n XOR d) \<longrightarrow>
        memtest_verify test_pmem test_mem_size d shutdown = Some (0, shutdown, None))"
  using first_mismatch [of _ test_mem_size test_pmem d]
    memtest_mismatch [of _ test_mem_size test_pmem d shutdown]
    memtest_pass [of test_mem_size test_pmem d shutdown]
  by blast

theorem verify_pass_reports_first_mismatch_witness:
  "(\<exists>n. uint n < 4 \<and> ((pattern 42)(2 := 0)) n \<noteq> n XOR 42)
   \<and> memtest_verify ((pattern 42)(2 := 0)) 4 42 0 = Some (1, 1, Some 2)
   \<and> memtest_verify (pattern 42) 4 42 0 = Some (0, 0, None)"
proof -
  have bad: "\<exists>n :: 32 word. uint n < 4 \<and> ((pattern 42)(2 := 0)) n \<noteq> n XOR 42"
    by (rule exI [of _ 2]) (simp add: pattern_def)
  have good: "\<forall>n. uint n < 4 \<longrightarrow> pattern 42 n = n XOR 42"
    by (simp add: pattern_def)
  from verify_pass_reports_first_mismatch [of 4 "(pattern 42)(2 := 0)" 42 0] bad
  obtain m where m: "memtest_verify ((pattern 42)(2 := 0)) 4 42 0 = Some (1, 1, Some m)"
      "((pattern 42)(2 := 0)) m \<noteq> m XOR 42"
    by blast
  from m(2) have "m = 2" by (simp add: pattern_def split: if_splits)
  with m(1) have 1: "memtest_verify ((pattern 42)(2 := 0)) 4 42 0 = Some (1, 1, Some 2)"
    by simp
  from verify_pass_reports_first_mismatch [of 4 "pattern 42" 42 0] good
  have 2: "memtest_verify (pattern 42) 4 42 0 = Some (0, 0, None)" by simp
  from bad 1 2 show ?thesis by blast
qed

end
